theory Spec2Isabelle
  imports Complex_Main
begin

section \<open>The LIBOR market model of fms\_lmm.h\<close>

text \<open>
  The header works on a curve given as three caller-owned arrays \<open>t\<close>, \<open>f\<close>/\<open>phi\<close> and
  \<open>sigma\<close>, each handed over as a raw pointer together with one count \<open>n\<close>. The functions
  know no array bounds: they touch the cells \<open>p[0] .. p[n-1]\<close> behind each pointer and
  \<open>advance_futures\<close> moves the pointers themselves (they are passed as \<open>T*&\<close>).

  The model keeps this shape. There is one store per template type parameter (\<open>T\<close> for
  knot times, \<open>F\<close> for rates, \<open>S\<close> for volatilities), a store maps an address to the value
  of the cell, and a pointer is an address, so \<open>p[i]\<close> is the cell \<open>p + i\<close>. Cells of
  different element types therefore never overlap, which is the data model of three parallel
  sequences. The scalar types are instantiated with the real numbers: all arithmetic is
  exact. The parameters \<open>u\<close> and \<open>alpha\<close>, const references in the source, are values.
  Counts and indices (\<open>size_t\<close>) are natural numbers: the loops count up to \<open>n\<close> or down to
  0 and never wrap.

  The process-wide engine \<open>dre\<close> is only ever used through \<open>N(dre)\<close> with a freshly
  constructed standard normal distribution \<open>N\<close>. Its state is modelled by the sequence of
  variates that the coming calls of \<open>N(dre)\<close> return.
\<close>

record machine =
  T_mem :: "nat \<Rightarrow> real"
  F_mem :: "nat \<Rightarrow> real"
  S_mem :: "nat \<Rightarrow> real"
  dre :: "nat \<Rightarrow> real"

text \<open>The \<open>n\<close> cells behind a pointer, as a list.\<close>

definition view :: "(nat \<Rightarrow> real) \<Rightarrow> nat \<Rightarrow> nat \<Rightarrow> real list" where
  "view mem p n = map (\<lambda>i. mem (p + i)) [0..<n]"

text \<open>One call \<open>N(dre)\<close>: the next variate, and the engine moved past it.\<close>

definition N :: "machine \<Rightarrow> real \<times> machine" where
  "N m = (dre m 0, m\<lparr>dre := (\<lambda>i. dre m (Suc i))\<rparr>)"

subsection \<open>to\_futures and to\_forwards\<close>

text \<open>The loop body \<open>f[i] += sigma[i] * sigma[i] * t[i] * t[i] / 2\<close>.\<close>

definition to_futures_body :: "nat \<Rightarrow> nat \<Rightarrow> nat \<Rightarrow> nat \<Rightarrow> machine \<Rightarrow> machine" where
  "to_futures_body t f sigma i m =
     m\<lparr>F_mem := (F_mem m)(f + i := F_mem m (f + i)
         + S_mem m (sigma + i) * S_mem m (sigma + i) * T_mem m (t + i) * T_mem m (t + i) / 2)\<rparr>"

definition to_futures :: "nat \<Rightarrow> nat \<Rightarrow> nat \<Rightarrow> nat \<Rightarrow> machine \<Rightarrow> machine" where
  "to_futures n t f sigma m = fold (to_futures_body t f sigma) [0..<n] m"

text \<open>The loop body \<open>phi[i] -= sigma[i] * sigma[i] * t[i] * t[i] / 2\<close>.\<close>

definition to_forwards_body :: "nat \<Rightarrow> nat \<Rightarrow> nat \<Rightarrow> nat \<Rightarrow> machine \<Rightarrow> machine" where
  "to_forwards_body t phi sigma i m =
     m\<lparr>F_mem := (F_mem m)(phi + i := F_mem m (phi + i)
         - S_mem m (sigma + i) * S_mem m (sigma + i) * T_mem m (t + i) * T_mem m (t + i) / 2)\<rparr>"

definition to_forwards :: "nat \<Rightarrow> nat \<Rightarrow> nat \<Rightarrow> nat \<Rightarrow> machine \<Rightarrow> machine" where
  "to_forwards n t phi sigma m = fold (to_forwards_body t phi sigma) [0..<n] m"

subsection \<open>advance\_futures\<close>

text \<open>
  The curve a call leaves behind: the count it returns and the three pointers, which the
  source updates through its reference parameters.
\<close>

record curve =
  count :: nat
  t_ptr :: nat
  phi_ptr :: nat
  sigma_ptr :: nat

text \<open>
  The loop \<open>while (n > 0 and *t <= u) { --n; ++t; ++phi; ++sigma; }\<close>. It reads the store of
  knot times and writes nothing.
\<close>

fun skip_matured :: "real \<Rightarrow> (nat \<Rightarrow> real) \<Rightarrow> nat \<Rightarrow> nat \<Rightarrow> nat \<Rightarrow> nat \<Rightarrow> curve" where
  "skip_matured u tm 0 t phi sigma = \<lparr>count = 0, t_ptr = t, phi_ptr = phi, sigma_ptr = sigma\<rparr>"
| "skip_matured u tm (Suc n) t phi sigma =
     (if tm t \<le> u then skip_matured u tm n (Suc t) (Suc phi) (Suc sigma)
      else \<lparr>count = Suc n, t_ptr = t, phi_ptr = phi, sigma_ptr = sigma\<rparr>)"

text \<open>
  The body of the second loop:
  \<open>t[i] -= u; Bu = B0 * cos(alpha * t[i]) + B1 * sin(alpha * t[i]);
   phi[i] *= exp(sigma[i] * Bu - sigma[i] * sigma[i] * u / 2)\<close>.
  The angle is taken from the cell \<open>t[i]\<close> after the subtraction.
\<close>

definition evolve_body ::
  "real \<Rightarrow> real \<Rightarrow> real \<Rightarrow> real \<Rightarrow> nat \<Rightarrow> nat \<Rightarrow> nat \<Rightarrow> nat \<Rightarrow> machine \<Rightarrow> machine" where
  "evolve_body u alpha B0 B1 t phi sigma i m =
     (let m1 = m\<lparr>T_mem := (T_mem m)(t + i := T_mem m (t + i) - u)\<rparr>;
          Bu = B0 * cos (alpha * T_mem m1 (t + i)) + B1 * sin (alpha * T_mem m1 (t + i))
      in m1\<lparr>F_mem := (F_mem m1)(phi + i := F_mem m1 (phi + i)
            * exp (S_mem m1 (sigma + i) * Bu - S_mem m1 (sigma + i) * S_mem m1 (sigma + i) * u / 2))\<rparr>)"

text \<open>The second loop, \<open>for (size_t i = 0; i < n; ++i)\<close> over that body.\<close>

definition evolve ::
  "real \<Rightarrow> real \<Rightarrow> real \<Rightarrow> real \<Rightarrow> nat \<Rightarrow> nat \<Rightarrow> nat \<Rightarrow> nat \<Rightarrow> machine \<Rightarrow> machine" where
  "evolve u alpha B0 B1 n t phi sigma m = fold (evolve_body u alpha B0 B1 t phi sigma) [0..<n] m"

text \<open>
  The whole function: the two draws, then the first loop, which moves \<open>n\<close> and the pointers,
  then the second loop over what is left.
\<close>

definition advance_futures ::
  "real \<Rightarrow> nat \<Rightarrow> nat \<Rightarrow> nat \<Rightarrow> nat \<Rightarrow> real \<Rightarrow> machine \<Rightarrow> curve \<times> machine" where
  "advance_futures u n t phi sigma alpha m =
     (let (B0, m1) = N m;
          (B1, m2) = N m1;
          c = skip_matured u (T_mem m2) n t phi sigma
      in (c, evolve u alpha B0 B1 (count c) (t_ptr c) (phi_ptr c) (sigma_ptr c) m2))"

subsection \<open>advance\<close>

definition advance ::
  "real \<Rightarrow> nat \<Rightarrow> nat \<Rightarrow> nat \<Rightarrow> nat \<Rightarrow> real \<Rightarrow> machine \<Rightarrow> curve \<times> machine" where
  "advance u n t f sigma alpha m =
     (let m1 = to_futures n t f sigma m;
          (c, m2) = advance_futures u n t f sigma alpha m1
      in (c, to_forwards (count c) (t_ptr c) (phi_ptr c) (sigma_ptr c) m2))"

subsection \<open>par\_coupon\<close>

text \<open>
  The loop carries \<open>Dn\<close>, \<open>D\<close> and \<open>t0\<close>. The final quotient \<open>(D0 - Dn) / D\<close> is a floating
  point division in the source, which does not trap; since division by zero is a total
  operation in HOL, the model returns the error value where the divisor is zero.
\<close>

datatype error = DivisionByZero

definition par_coupon_body ::
  "(nat \<Rightarrow> real) \<Rightarrow> (nat \<Rightarrow> real) \<Rightarrow> nat \<Rightarrow> nat \<Rightarrow> nat \<Rightarrow> real \<times> real \<times> real \<Rightarrow> real \<times> real \<times> real" where
  "par_coupon_body tm fm t f j = (\<lambda>(Dn, D, t0).
     (let dt = tm (t + j) - t0;
          Dn' = Dn * exp (- fm (f + j) * dt)
      in (Dn', D + Dn' * dt, tm (t + j))))"

text \<open>The loop, started from \<open>Dn = 1\<close>, \<open>D = 0\<close> and \<open>t0 = 0\<close>.\<close>

definition par_coupon_loop :: "nat \<Rightarrow> nat \<Rightarrow> nat \<Rightarrow> machine \<Rightarrow> real \<times> real \<times> real" where
  "par_coupon_loop n t f m = fold (par_coupon_body (T_mem m) (F_mem m) t f) [0..<n] (1, 0, 0)"

definition par_coupon :: "nat \<Rightarrow> nat \<Rightarrow> nat \<Rightarrow> machine \<Rightarrow> error + real" where
  "par_coupon n t f m =
     (let D0 = 1;
          (Dn, D, t0) = par_coupon_loop n t f m
      in if D = 0 then Inl DivisionByZero else Inr ((D0 - Dn) / D))"





section \<open>The par coupon as the specification words it\<close>

text \<open>
  These definitions follow the specification, not the source: over the knot times \<open>ts\<close> and
  forwards \<open>fs\<close> of a curve, with the implicit knot \<open>t[-1] = 0\<close>, the discount factors are
  \<open>D_0 = 1\<close> and \<open>D_j = D_{j-1} * exp (- f_j * (t_j - t_{j-1}))\<close>, where bucket \<open>j\<close> (counted
  from 1) is entry \<open>j - 1\<close> of the lists, and the annuity is the sum of
  \<open>D_j * (t_j - t_{j-1})\<close> over the buckets.
\<close>

definition spec_knot :: "real list \<Rightarrow> nat \<Rightarrow> real" where
  "spec_knot ts j = (if j = 0 then 0 else ts ! (j - 1))"

fun spec_discount :: "real list \<Rightarrow> real list \<Rightarrow> nat \<Rightarrow> real" where
  "spec_discount ts fs 0 = 1"
| "spec_discount ts fs (Suc j) =
     spec_discount ts fs j * exp (- (fs ! j) * (spec_knot ts (Suc j) - spec_knot ts j))"

definition spec_annuity :: "real list \<Rightarrow> real list \<Rightarrow> nat \<Rightarrow> real" where
  "spec_annuity ts fs n =
     (\<Sum>j < n. spec_discount ts fs (Suc j) * (spec_knot ts (Suc j) - spec_knot ts j))"

definition spec_par_coupon :: "real list \<Rightarrow> real list \<Rightarrow> real" where
  "spec_par_coupon ts fs =
     (1 - spec_discount ts fs (length ts)) / spec_annuity ts fs (length ts)"

section \<open>A family of concrete machines\<close>

text \<open>
  Knot times \<open>1, 2, 3, ...\<close> from address 0 on, every rate cell \<open>r\<close>, every volatility cell
  \<open>s\<close>, and an engine that returns \<open>b0\<close> first and \<open>b1\<close> ever after.
\<close>

definition flat_machine :: "real \<Rightarrow> real \<Rightarrow> real \<Rightarrow> real \<Rightarrow> machine" where
  "flat_machine r s b0 b1 =
     \<lparr>T_mem = (\<lambda>a. real a + 1), F_mem = (\<lambda>a. r), S_mem = (\<lambda>a. s),
      dre = (\<lambda>i. if i = 0 then b0 else b1)\<rparr>"

section \<open>The two converters, cell by cell\<close>

text \<open>
  Each converter writes the cells \<open>f[0] .. f[n-1]\<close> of the rate store once and nothing
  else; the value written to a cell depends on cells that the loop does not write.
\<close>

lemma to_futures_Suc: "to_futures (Suc n) t f sigma m = to_futures_body t f sigma n (to_futures n t f sigma m)"
  by (simp add: to_futures_def)

lemma to_futures_0: "to_futures 0 t f sigma m = m"
  by (simp add: to_futures_def)

lemma to_futures_frame:
  "T_mem (to_futures n t f sigma m) = T_mem m \<and> S_mem (to_futures n t f sigma m) = S_mem m
   \<and> dre (to_futures n t f sigma m) = dre m \<and> machine.more (to_futures n t f sigma m) = machine.more m"
  by (induction n) (simp_all add: to_futures_0 to_futures_Suc to_futures_body_def)

lemma to_futures_F:
  "F_mem (to_futures n t f sigma m) a =
     (if f \<le> a \<and> a < f + n
      then F_mem m a + S_mem m (sigma + (a - f)) * S_mem m (sigma + (a - f))
             * T_mem m (t + (a - f)) * T_mem m (t + (a - f)) / 2
      else F_mem m a)"
proof (induction n arbitrary: a)
  case 0
  show ?case by (simp add: to_futures_0)
next
  case (Suc n)
  show ?case
  proof (cases "a = f + n")
    case True
    then show ?thesis
      by (simp add: to_futures_Suc to_futures_body_def Suc to_futures_frame)
  next
    case False
    then show ?thesis
      by (auto simp add: to_futures_Suc to_futures_body_def Suc to_futures_frame)
  qed
qed

lemma to_forwards_Suc: "to_forwards (Suc n) t f sigma m = to_forwards_body t f sigma n (to_forwards n t f sigma m)"
  by (simp add: to_forwards_def)

lemma to_forwards_0: "to_forwards 0 t f sigma m = m"
  by (simp add: to_forwards_def)

lemma to_forwards_frame:
  "T_mem (to_forwards n t f sigma m) = T_mem m \<and> S_mem (to_forwards n t f sigma m) = S_mem m
   \<and> dre (to_forwards n t f sigma m) = dre m \<and> machine.more (to_forwards n t f sigma m) = machine.more m"
  by (induction n) (simp_all add: to_forwards_0 to_forwards_Suc to_forwards_body_def)

lemma to_forwards_F:
  "F_mem (to_forwards n t f sigma m) a =
     (if f \<le> a \<and> a < f + n
      then F_mem m a - S_mem m (sigma + (a - f)) * S_mem m (sigma + (a - f))
             * T_mem m (t + (a - f)) * T_mem m (t + (a - f)) / 2
      else F_mem m a)"
proof (induction n arbitrary: a)
  case 0
  show ?case by (simp add: to_forwards_0)
next
  case (Suc n)
  show ?case
  proof (cases "a = f + n")
    case True
    then show ?thesis
      by (simp add: to_forwards_Suc to_forwards_body_def Suc to_forwards_frame)
  next
    case False
    then show ?thesis
      by (auto simp add: to_forwards_Suc to_forwards_body_def Suc to_forwards_frame)
  qed
qed

section \<open>The two loops of advance\_futures\<close>

text \<open>
  The first loop only moves the count and the pointers, all by the same amount. The second
  writes the cells \<open>t[0] .. t[n-1]\<close> and \<open>phi[0] .. phi[n-1]\<close> behind the moved pointers,
  each once.
\<close>

lemma skip_matured_shape:
  "count (skip_matured u tm n t phi sigma) \<le> n
   \<and> t_ptr (skip_matured u tm n t phi sigma) = t + (n - count (skip_matured u tm n t phi sigma))
   \<and> phi_ptr (skip_matured u tm n t phi sigma) = phi + (n - count (skip_matured u tm n t phi sigma))
   \<and> sigma_ptr (skip_matured u tm n t phi sigma) = sigma + (n - count (skip_matured u tm n t phi sigma))"
proof (induction n arbitrary: t phi sigma)
  case 0
  show ?case by simp
next
  case (Suc n)
  show ?case
  proof (cases "tm t \<le> u")
    case True
    have le: "count (skip_matured u tm n (Suc t) (Suc phi) (Suc sigma)) \<le> n"
      using Suc [of "Suc t" "Suc phi" "Suc sigma"] by simp
    from le have "Suc n - count (skip_matured u tm n (Suc t) (Suc phi) (Suc sigma))
        = Suc (n - count (skip_matured u tm n (Suc t) (Suc phi) (Suc sigma)))"
      by simp
    with True le Suc [of "Suc t" "Suc phi" "Suc sigma"] show ?thesis by simp
  next
    case False
    then show ?thesis by simp
  qed
qed

lemma skip_matured_drop:
  "k \<le> n \<Longrightarrow> (\<And>j. j < k \<Longrightarrow> tm (t + j) \<le> u) \<Longrightarrow> (k < n \<Longrightarrow> u < tm (t + k)) \<Longrightarrow>
   skip_matured u tm n t phi sigma
     = \<lparr>count = n - k, t_ptr = t + k, phi_ptr = phi + k, sigma_ptr = sigma + k\<rparr>"
proof (induction k arbitrary: n t phi sigma)
  case 0
  then show ?case by (cases n) simp_all
next
  case (Suc k)
  then obtain n' where n: "n = Suc n'" by (cases n) simp_all
  have head: "tm t \<le> u" using Suc.prems(2) [of 0] by simp
  have "skip_matured u tm n' (Suc t) (Suc phi) (Suc sigma)
      = \<lparr>count = n' - k, t_ptr = Suc t + k, phi_ptr = Suc phi + k, sigma_ptr = Suc sigma + k\<rparr>"
  proof (rule Suc.IH)
    show "k \<le> n'" using Suc.prems(1) n by simp
    show "tm (Suc t + j) \<le> u" if "j < k" for j
      using Suc.prems(2) [of "Suc j"] that by simp
    show "u < tm (Suc t + k)" if "k < n'"
      using Suc.prems(3) that n by simp
  qed
  with head n show ?case by simp
qed

lemma evolve_0: "evolve u alpha B0 B1 0 t phi sigma m = m"
  by (simp add: evolve_def)

lemma evolve_Suc:
  "evolve u alpha B0 B1 (Suc n) t phi sigma m
     = evolve_body u alpha B0 B1 t phi sigma n (evolve u alpha B0 B1 n t phi sigma m)"
  by (simp add: evolve_def)

lemma evolve_frame:
  "S_mem (evolve u alpha B0 B1 n t phi sigma m) = S_mem m
   \<and> dre (evolve u alpha B0 B1 n t phi sigma m) = dre m
   \<and> machine.more (evolve u alpha B0 B1 n t phi sigma m) = machine.more m"
  by (induction n) (simp_all add: evolve_0 evolve_Suc evolve_body_def Let_def)

lemma evolve_T:
  "T_mem (evolve u alpha B0 B1 n t phi sigma m) a =
     (if t \<le> a \<and> a < t + n then T_mem m a - u else T_mem m a)"
proof (induction n arbitrary: a)
  case 0
  show ?case by (simp add: evolve_0)
next
  case (Suc n)
  show ?case
  proof (cases "a = t + n")
    case True
    then show ?thesis by (simp add: evolve_Suc evolve_body_def Let_def Suc)
  next
    case False
    then show ?thesis by (auto simp add: evolve_Suc evolve_body_def Let_def Suc)
  qed
qed

lemma evolve_F:
  "F_mem (evolve u alpha B0 B1 n t phi sigma m) a =
     (if phi \<le> a \<and> a < phi + n
      then F_mem m a * exp (S_mem m (sigma + (a - phi))
               * (B0 * cos (alpha * (T_mem m (t + (a - phi)) - u))
                  + B1 * sin (alpha * (T_mem m (t + (a - phi)) - u)))
             - S_mem m (sigma + (a - phi)) * S_mem m (sigma + (a - phi)) * u / 2)
      else F_mem m a)"
proof (induction n arbitrary: a)
  case 0
  show ?case by (simp add: evolve_0)
next
  case (Suc n)
  show ?case
  proof (cases "a = phi + n")
    case True
    then show ?thesis by (simp add: evolve_Suc evolve_body_def Let_def Suc evolve_T evolve_frame)
  next
    case False
    then show ?thesis by (auto simp add: evolve_Suc evolve_body_def Let_def Suc evolve_T evolve_frame)
  qed
qed

lemma advance_futures_eq:
  "advance_futures u n t phi sigma alpha m =
     (skip_matured u (T_mem m) n t phi sigma,
      evolve u alpha (dre m 0) (dre m 1)
        (count (skip_matured u (T_mem m) n t phi sigma))
        (t_ptr (skip_matured u (T_mem m) n t phi sigma))
        (phi_ptr (skip_matured u (T_mem m) n t phi sigma))
        (sigma_ptr (skip_matured u (T_mem m) n t phi sigma))
        (m\<lparr>dre := (\<lambda>i. dre m (i + 2))\<rparr>))"
  by (simp add: advance_futures_def N_def Let_def)

section \<open>Views and the concrete machines\<close>

lemma length_view: "length (view mem p n) = n"
  by (simp add: view_def)

lemma nth_view: "i < n \<Longrightarrow> view mem p n ! i = mem (p + i)"
  by (simp add: view_def)

text \<open>On the concrete machines, a call with \<open>u = 3/2\<close> and three buckets drops the first.\<close>

lemma flat_skip_matured:
  "skip_matured (3/2) (T_mem (flat_machine r s b0 b1)) 3 0 0 0
     = \<lparr>count = 2, t_ptr = 1, phi_ptr = 1, sigma_ptr = 1\<rparr>"
  by (simp add: flat_machine_def eval_nat_numeral)

lemma flat_advance_futures_fst:
  "fst (advance_futures (3/2) 3 0 0 0 alpha (flat_machine r s b0 b1))
     = \<lparr>count = 2, t_ptr = 1, phi_ptr = 1, sigma_ptr = 1\<rparr>"
  by (simp add: advance_futures_eq flat_skip_matured)

section \<open>The loop of par\_coupon\<close>

lemma par_coupon_loop_0: "par_coupon_loop 0 t f m = (1, 0, 0)"
  by (simp add: par_coupon_loop_def)

lemma par_coupon_loop_Suc:
  "par_coupon_loop (Suc n) t f m
     = par_coupon_body (T_mem m) (F_mem m) t f n (par_coupon_loop n t f m)"
  by (simp add: par_coupon_loop_def)

lemma spec_discount_pos: "0 < spec_discount ts fs j"
  by (induction j) simp_all

text \<open>
  The loop invariant: after \<open>j\<close> rounds the loop holds the discount factor \<open>D_j\<close>, the annuity
  of the first \<open>j\<close> buckets and the knot time \<open>t_{j-1}\<close>.
\<close>

lemma par_coupon_loop_spec:
  "j \<le> n \<Longrightarrow>
   par_coupon_loop j t f m
     = (spec_discount (view (T_mem m) t n) (view (F_mem m) f n) j,
        spec_annuity (view (T_mem m) t n) (view (F_mem m) f n) j,
        spec_knot (view (T_mem m) t n) j)"
proof (induction j)
  case 0
  show ?case by (simp add: par_coupon_loop_0 spec_annuity_def spec_knot_def)
next
  case (Suc j)
  then have IH: "par_coupon_loop j t f m
     = (spec_discount (view (T_mem m) t n) (view (F_mem m) f n) j,
        spec_annuity (view (T_mem m) t n) (view (F_mem m) f n) j,
        spec_knot (view (T_mem m) t n) j)" and j: "j < n"
    by simp_all
  have k: "spec_knot (view (T_mem m) t n) (Suc j) = T_mem m (t + j)"
    using j by (simp add: spec_knot_def nth_view)
  have fj: "view (F_mem m) f n ! j = F_mem m (f + j)"
    using j by (simp add: nth_view)
  show ?case
    by (simp add: par_coupon_loop_Suc IH par_coupon_body_def Let_def k fj spec_annuity_def)
qed

lemma spec_knot_increasing:
  assumes "sorted_wrt (<) (0 # ts)" and "j < length ts"
  shows "spec_knot ts j < spec_knot ts (Suc j)"
proof -
  have "(0 # ts) ! j < (0 # ts) ! Suc j"
    using sorted_wrt_nth_less [OF assms(1), of j "Suc j"] assms(2) by simp
  then show ?thesis by (cases j) (simp_all add: spec_knot_def)
qed

lemma spec_annuity_pos:
  assumes "sorted_wrt (<) (0 # ts)" and "1 \<le> n" and "n \<le> length ts"
  shows "0 < spec_annuity ts fs n"
  unfolding spec_annuity_def
proof (rule sum_pos)
  show "finite {..<n}" by simp
  have "0 \<in> {..<n}" using assms(2) by simp
  then show "{..<n} \<noteq> {}" by blast
  fix j assume "j \<in> {..<n}"
  then have "j < length ts" using assms(3) by simp
  then have "0 < spec_knot ts (Suc j) - spec_knot ts j"
    using spec_knot_increasing [OF assms(1)] by simp
  then show "0 < spec_discount ts fs (Suc j) * (spec_knot ts (Suc j) - spec_knot ts j)"
    using spec_discount_pos [of ts fs "Suc j"] by (simp only: mult_pos_pos)
qed

lemma par_coupon_dre: "par_coupon n t f (m\<lparr>dre := d\<rparr>) = par_coupon n t f m"
  by (simp add: par_coupon_def par_coupon_loop_def)







section \<open>Curves without volatility\<close>

text \<open>With every \<open>sigma[i] = 0\<close> the converters and, for \<open>u = 0\<close>, the second loop change nothing.\<close>

lemma to_futures_zero_sigma:
  assumes "\<forall>i < n. S_mem m (sigma + i) = 0"
  shows "to_futures n t f sigma m = m"
proof (rule machine.equality)
  show "F_mem (to_futures n t f sigma m) = F_mem m"
  proof (rule ext)
    fix a
    show "F_mem (to_futures n t f sigma m) a = F_mem m a"
    proof (cases "f \<le> a \<and> a < f + n")
      case True
      then have "a - f < n" by auto
      with assms have z: "S_mem m (sigma + (a - f)) = 0" by simp
      have "F_mem (to_futures n t f sigma m) a = F_mem m a + 0 * 0 * T_mem m (t + (a - f)) * T_mem m (t + (a - f)) / 2"
        by (simp only: to_futures_F if_P [OF True] z)
      then show ?thesis by simp
    next
      case False
      show ?thesis unfolding to_futures_F using False by (rule if_not_P)
    qed
  qed
qed (simp_all add: to_futures_frame)

lemma to_forwards_zero_sigma:
  assumes "\<forall>i < n. S_mem m (sigma + i) = 0"
  shows "to_forwards n t f sigma m = m"
proof (rule machine.equality)
  show "F_mem (to_forwards n t f sigma m) = F_mem m"
  proof (rule ext)
    fix a
    show "F_mem (to_forwards n t f sigma m) a = F_mem m a"
    proof (cases "f \<le> a \<and> a < f + n")
      case True
      then have "a - f < n" by auto
      with assms have z: "S_mem m (sigma + (a - f)) = 0" by simp
      have "F_mem (to_forwards n t f sigma m) a = F_mem m a - 0 * 0 * T_mem m (t + (a - f)) * T_mem m (t + (a - f)) / 2"
        by (simp only: to_forwards_F if_P [OF True] z)
      then show ?thesis by simp
    next
      case False
      show ?thesis unfolding to_forwards_F using False by (rule if_not_P)
    qed
  qed
qed (simp_all add: to_forwards_frame)

lemma evolve_zero_sigma:
  assumes "\<forall>i < n. S_mem m (sigma + i) = 0"
  shows "F_mem (evolve u alpha B0 B1 n t phi sigma m) = F_mem m"
proof (rule ext)
  fix a
  show "F_mem (evolve u alpha B0 B1 n t phi sigma m) a = F_mem m a"
  proof (cases "phi \<le> a \<and> a < phi + n")
    case True
    then have "a - phi < n" by auto
    with assms have z: "S_mem m (sigma + (a - phi)) = 0" by simp
    show ?thesis by (simp only: evolve_F if_P [OF True] z) simp
  next
    case False
    show ?thesis unfolding evolve_F using False by (rule if_not_P)
  qed
qed

lemma evolve_zero_sigma_zero_u:
  assumes "\<forall>i < n. S_mem m (sigma + i) = 0"
  shows "evolve 0 alpha B0 B1 n t phi sigma m = m"
proof (rule machine.equality)
  show "F_mem (evolve 0 alpha B0 B1 n t phi sigma m) = F_mem m"
    using assms by (rule evolve_zero_sigma)
  show "T_mem (evolve 0 alpha B0 B1 n t phi sigma m) = T_mem m"
    by (rule ext) (simp add: evolve_T)
qed (simp_all add: evolve_frame)

lemma advance_zero_sigma_zero_u:
  assumes zero: "\<forall>i < n. S_mem m (sigma + i) = 0"
    and pos: "0 < n \<longrightarrow> 0 < T_mem m t"
  shows "advance 0 n t f sigma alpha m
    = (\<lparr>count = n, t_ptr = t, phi_ptr = f, sigma_ptr = sigma\<rparr>, m\<lparr>dre := (\<lambda>i. dre m (i + 2))\<rparr>)"
proof -
  define m2 where "m2 = m\<lparr>dre := (\<lambda>i. dre m (i + 2))\<rparr>"
  have c: "skip_matured 0 (T_mem m) n t f sigma
     = \<lparr>count = n, t_ptr = t, phi_ptr = f, sigma_ptr = sigma\<rparr>"
    using skip_matured_drop [of 0 n "T_mem m" t 0 f sigma] pos by simp
  have zero': "\<forall>i < n. S_mem m2 (sigma + i) = 0"
    using zero by (simp add: m2_def)
  have "advance_futures 0 n t f sigma alpha m
      = (\<lparr>count = n, t_ptr = t, phi_ptr = f, sigma_ptr = sigma\<rparr>,
         evolve 0 alpha (dre m 0) (dre m 1) n t f sigma m2)"
    unfolding advance_futures_eq c m2_def by simp
  then have af: "advance_futures 0 n t f sigma alpha m
      = (\<lparr>count = n, t_ptr = t, phi_ptr = f, sigma_ptr = sigma\<rparr>, m2)"
    by (simp only: evolve_zero_sigma_zero_u [OF zero'])
  have "advance 0 n t f sigma alpha m
      = (\<lparr>count = n, t_ptr = t, phi_ptr = f, sigma_ptr = sigma\<rparr>, m2)"
    by (simp add: advance_def to_futures_zero_sigma [OF zero] af to_forwards_zero_sigma [OF zero'])
  then show ?thesis by (simp only: m2_def)
qed

section \<open>More on the concrete machines\<close>

lemma flat_knots_increasing: "sorted_wrt (<) (0 # view (T_mem (flat_machine r s b0 b1)) 0 n)"
  by (simp add: view_def flat_machine_def sorted_wrt_map sorted_wrt_upt)

lemma flat_view_2:
  "view (T_mem (flat_machine r s b0 b1)) 0 2 = [1, 2]"
  "view (F_mem (flat_machine r s b0 b1)) 0 2 = [r, r]"
  by (simp_all add: view_def flat_machine_def eval_nat_numeral)

text \<open>One bucket with knot time 1, rate 1 and volatility 1, advanced to \<open>u = 0\<close>.\<close>

lemma unit_advance_futures:
  "advance_futures 0 1 0 0 0 alpha (flat_machine 1 1 b0 b1)
     = (\<lparr>count = 1, t_ptr = 0, phi_ptr = 0, sigma_ptr = 0\<rparr>,
        (flat_machine 1 1 b0 b1)\<lparr>F_mem := (\<lambda>a. if a = 0 then exp (b0 * cos alpha + b1 * sin alpha) else 1),
                                 dre := (\<lambda>i. b1)\<rparr>)"
  by (simp add: advance_futures_def N_def Let_def flat_machine_def evolve_def evolve_body_def fun_eq_iff)

section \<open>Claims\<close>

text \<open>
  C4. For every curve (any count, any knot times, rates and volatilities), \<open>to_futures\<close>
  followed by \<open>to_forwards\<close> with the same pointers gives back the machine it started
  from, in particular the original rate sequence: the second loop subtracts from each cell
  exactly what the first one added. This is the statement in exact arithmetic.
\<close>

theorem to_forwards_to_futures_round_trip:
  "to_forwards n t f sigma (to_futures n t f sigma m) = m"
proof (rule machine.equality)
  show "F_mem (to_forwards n t f sigma (to_futures n t f sigma m)) = F_mem m"
    by (rule ext) (simp add: to_forwards_F to_futures_F to_futures_frame)
qed (simp_all add: to_forwards_frame to_futures_frame)

text \<open>
  C2. Let the knot times \<open>t[0] < t[1] < ... < t[n-1]\<close> be strictly increasing and let \<open>u\<close> lie
  strictly between \<open>t[k-1]\<close> and \<open>t[k]\<close>, where \<open>0 \<le> k \<le> n\<close>, \<open>t[-1]\<close> is read as 0 and
  there is no upper bound for \<open>k = n\<close>. Then \<open>advance_futures\<close> drops exactly the first \<open>k\<close>
  buckets: it returns \<open>n - k\<close> and leaves the three pointers moved forward by \<open>k\<close>; and the
  knot time of every surviving bucket is its original knot time minus \<open>u\<close>.
\<close>

theorem advance_futures_window:
  assumes incr: "sorted_wrt (<) (view (T_mem m) t n)"
    and k: "k \<le> n"
    and lower: "(if k = 0 then 0 else T_mem m (t + (k - 1))) < u"
    and upper: "k < n \<Longrightarrow> u < T_mem m (t + k)"
  shows "fst (advance_futures u n t phi sigma alpha m)
           = \<lparr>count = n - k, t_ptr = t + k, phi_ptr = phi + k, sigma_ptr = sigma + k\<rparr>
         \<and> (\<forall>i < n - k. T_mem (snd (advance_futures u n t phi sigma alpha m)) (t + k + i)
                          = T_mem m (t + k + i) - u)"
proof -
  have matured: "T_mem m (t + j) \<le> u" if "j < k" for j
  proof (cases "j = k - 1")
    case True
    with that lower show ?thesis by (simp split: if_splits)
  next
    case False
    with that have jk: "j < k - 1" and kn: "k - 1 < n" using k by simp_all
    have "view (T_mem m) t n ! j < view (T_mem m) t n ! (k - 1)"
      using incr jk kn by (simp add: sorted_wrt_iff_nth_less length_view)
    then have "T_mem m (t + j) < T_mem m (t + (k - 1))"
      using jk kn by (simp add: nth_view)
    with that lower show ?thesis by (simp split: if_splits)
  qed
  have c: "skip_matured u (T_mem m) n t phi sigma
             = \<lparr>count = n - k, t_ptr = t + k, phi_ptr = phi + k, sigma_ptr = sigma + k\<rparr>"
    using k matured upper by (rule skip_matured_drop)
  show ?thesis
    by (auto simp add: advance_futures_eq c evolve_T)
qed

theorem advance_futures_window_witness:
  "fst (advance_futures (3/2) 3 0 0 0 0 (flat_machine (1/20) (1/5) 1 0))
      = \<lparr>count = 2, t_ptr = 1, phi_ptr = 1, sigma_ptr = 1\<rparr>
   \<and> T_mem (snd (advance_futures (3/2) 3 0 0 0 0 (flat_machine (1/20) (1/5) 1 0))) 1 = 1/2
   \<and> T_mem (snd (advance_futures (3/2) 3 0 0 0 0 (flat_machine (1/20) (1/5) 1 0))) 2 = 3/2"
proof -
  have incr: "sorted_wrt (<) (view (T_mem (flat_machine (1/20) (1/5) 1 0)) 0 3)"
    by (simp add: view_def flat_machine_def sorted_wrt_map sorted_wrt_upt)
  note w = advance_futures_window [of "flat_machine (1/20) (1/5) 1 0" 0 3 1 "3/2" 0 0 0, OF incr]
  have "fst (advance_futures (3/2) 3 0 0 0 0 (flat_machine (1/20) (1/5) 1 0))
           = \<lparr>count = 3 - 1, t_ptr = 0 + 1, phi_ptr = 0 + 1, sigma_ptr = 0 + 1\<rparr>
         \<and> (\<forall>i < 3 - 1. T_mem (snd (advance_futures (3/2) 3 0 0 0 0 (flat_machine (1/20) (1/5) 1 0))) (0 + 1 + i)
                          = T_mem (flat_machine (1/20) (1/5) 1 0) (0 + 1 + i) - 3/2)"
    by (rule w) (simp_all add: flat_machine_def)
  then have a: "fst (advance_futures (3/2) 3 0 0 0 0 (flat_machine (1/20) (1/5) 1 0))
           = \<lparr>count = 2, t_ptr = 1, phi_ptr = 1, sigma_ptr = 1\<rparr>"
    and b: "\<And>i. i < 2 \<Longrightarrow> T_mem (snd (advance_futures (3/2) 3 0 0 0 0 (flat_machine (1/20) (1/5) 1 0))) (1 + i)
                          = T_mem (flat_machine (1/20) (1/5) 1 0) (1 + i) - 3/2"
    by simp_all
  have v: "T_mem (flat_machine (1/20) (1/5) 1 0) 1 = 2"
    "T_mem (flat_machine (1/20) (1/5) 1 0) 2 = 3"
    by (simp_all add: flat_machine_def)
  have "(0::nat) < 2" and "(1::nat) < 2" by simp_all
  note b0 = b [OF \<open>0 < 2\<close>, unfolded add_0_right v] and b1 = b [OF \<open>1 < 2\<close>, unfolded one_add_one v]
  from a b0 b1 show ?thesis by simp
qed

text \<open>
  C5. If every volatility \<open>sigma[i]\<close> of the curve is 0, then \<open>advance_futures\<close> leaves every
  rate as it was, in particular the rates of the surviving buckets, whatever \<open>u\<close> is (also
  for negative \<open>u\<close>) and whatever the two draws are.
\<close>

theorem advance_futures_zero_sigma:
  assumes zero: "\<forall>i < n. S_mem m (sigma + i) = 0"
    and run: "advance_futures u n t phi sigma alpha m = (c, m')"
  shows "F_mem m' = F_mem m
     \<and> view (F_mem m') (phi_ptr c) (count c) = view (F_mem m) (phi_ptr c) (count c)"
proof -
  from run have c: "c = skip_matured u (T_mem m) n t phi sigma"
    and m': "m' = evolve u alpha (dre m 0) (dre m 1) (count c) (t_ptr c) (phi_ptr c) (sigma_ptr c)
                    (m\<lparr>dre := (\<lambda>i. dre m (i + 2))\<rparr>)"
    by (auto simp add: advance_futures_eq)
  note shape = skip_matured_shape [of u "T_mem m" n t phi sigma, folded c]
  have "F_mem m' a = F_mem m a" for a
  proof (cases "phi_ptr c \<le> a \<and> a < phi_ptr c + count c")
    case True
    then have "sigma_ptr c + (a - phi_ptr c) = sigma + ((n - count c) + (a - phi_ptr c))"
      and "(n - count c) + (a - phi_ptr c) < n"
      using shape by auto
    with zero have "S_mem m (sigma_ptr c + (a - phi_ptr c)) = 0"
      by (simp add: add.assoc)
    with True show ?thesis by (simp add: m' evolve_F)
  next
    case False
    then have "F_mem m' a = F_mem (m\<lparr>dre := (\<lambda>i. dre m (i + 2))\<rparr>) a"
      unfolding m' evolve_F by (rule if_not_P)
    then show ?thesis by simp
  qed
  then have "F_mem m' = F_mem m" by (rule ext)
  then show ?thesis by simp
qed

theorem advance_futures_zero_sigma_witness:
  "F_mem (snd (advance_futures (3/2) 3 0 0 0 0 (flat_machine (1/20) 0 1 0))) 1 = 1/20
   \<and> F_mem (snd (advance_futures (3/2) 3 0 0 0 0 (flat_machine (1/20) 0 1 0))) 2 = 1/20
   \<and> view (F_mem (snd (advance_futures (3/2) 3 0 0 0 0 (flat_machine (1/20) 0 1 0)))) 1 2
        = [1/20, 1/20]"
proof -
  have zero: "\<forall>i < 3. S_mem (flat_machine (1/20) 0 1 0) (0 + i) = 0"
    by (simp add: flat_machine_def)
  have run: "advance_futures (3/2) 3 0 0 0 0 (flat_machine (1/20) 0 1 0)
      = (fst (advance_futures (3/2) 3 0 0 0 0 (flat_machine (1/20) 0 1 0)),
         snd (advance_futures (3/2) 3 0 0 0 0 (flat_machine (1/20) 0 1 0)))"
    by simp
  have F: "F_mem (flat_machine (1/20) 0 1 0) = (\<lambda>a. 1/20)"
    by (simp add: flat_machine_def)
  note w = advance_futures_zero_sigma [OF zero run, unfolded flat_advance_futures_fst F]
  from w have "F_mem (snd (advance_futures (3/2) 3 0 0 0 0 (flat_machine (1/20) 0 1 0))) = (\<lambda>a. 1/20)"
    by simp
  then show ?thesis by (simp add: view_def eval_nat_numeral)
qed

text \<open>
  C8. Every call of \<open>advance_futures\<close> takes exactly two variates from the engine, whatever
  \<open>n\<close> and \<open>u\<close> are: afterwards the engine stands two variates further. With \<open>n = 0\<close> the call
  returns 0 and changes nothing but the engine. Every surviving bucket is updated with the
  same pair: its new rate is the old one times
  \<open>exp (sigma[i] * (B0 * cos (alpha * (t[i] - u)) + B1 * sin (alpha * (t[i] - u))) - sigma[i]^2 * u / 2)\<close>
  where \<open>B0\<close> and \<open>B1\<close> are the first and the second variate the engine had to give. (In the
  source the two draws are the first statements of the function, before the first loop; the
  first loop does not touch the engine.)
\<close>

theorem advance_futures_draws:
  "dre (snd (advance_futures u n t phi sigma alpha m)) = (\<lambda>i. dre m (i + 2))
   \<and> advance_futures u 0 t phi sigma alpha m
       = (\<lparr>count = 0, t_ptr = t, phi_ptr = phi, sigma_ptr = sigma\<rparr>, m\<lparr>dre := (\<lambda>i. dre m (i + 2))\<rparr>)
   \<and> (\<forall>c m' i. advance_futures u n t phi sigma alpha m = (c, m') \<and> i < count c \<longrightarrow>
        F_mem m' (phi_ptr c + i) = F_mem m (phi_ptr c + i)
          * exp (S_mem m (sigma_ptr c + i)
                   * (dre m 0 * cos (alpha * (T_mem m (t_ptr c + i) - u))
                      + dre m 1 * sin (alpha * (T_mem m (t_ptr c + i) - u)))
                 - S_mem m (sigma_ptr c + i) * S_mem m (sigma_ptr c + i) * u / 2))"
proof (intro conjI allI impI)
  show "dre (snd (advance_futures u n t phi sigma alpha m)) = (\<lambda>i. dre m (i + 2))"
    by (simp add: advance_futures_eq evolve_frame)
  show "advance_futures u 0 t phi sigma alpha m
       = (\<lparr>count = 0, t_ptr = t, phi_ptr = phi, sigma_ptr = sigma\<rparr>, m\<lparr>dre := (\<lambda>i. dre m (i + 2))\<rparr>)"
    by (simp add: advance_futures_eq evolve_0)
next
  fix c m' i
  assume h: "advance_futures u n t phi sigma alpha m = (c, m') \<and> i < count c"
  then have m': "m' = evolve u alpha (dre m 0) (dre m 1) (count c) (t_ptr c) (phi_ptr c) (sigma_ptr c)
                    (m\<lparr>dre := (\<lambda>i. dre m (i + 2))\<rparr>)"
    by (auto simp add: advance_futures_eq)
  from h show "F_mem m' (phi_ptr c + i) = F_mem m (phi_ptr c + i)
          * exp (S_mem m (sigma_ptr c + i)
                   * (dre m 0 * cos (alpha * (T_mem m (t_ptr c + i) - u))
                      + dre m 1 * sin (alpha * (T_mem m (t_ptr c + i) - u)))
                 - S_mem m (sigma_ptr c + i) * S_mem m (sigma_ptr c + i) * u / 2)"
    by (simp add: m' evolve_F)
qed

theorem advance_futures_draws_witness:
  "dre (snd (advance_futures (3/2) 3 0 0 0 0 (flat_machine (1/20) (1/5) 1 0))) = (\<lambda>i. 0)
   \<and> F_mem (snd (advance_futures (3/2) 3 0 0 0 0 (flat_machine (1/20) (1/5) 1 0))) 1
       = 1/20 * exp (1/5 * 1 - 1/5 * (1/5) * (3/2) / 2)"
proof -
  have run: "advance_futures (3/2) 3 0 0 0 0 (flat_machine (1/20) (1/5) 1 0)
      = (fst (advance_futures (3/2) 3 0 0 0 0 (flat_machine (1/20) (1/5) 1 0)),
         snd (advance_futures (3/2) 3 0 0 0 0 (flat_machine (1/20) (1/5) 1 0)))
      \<and> 0 < count (fst (advance_futures (3/2) 3 0 0 0 0 (flat_machine (1/20) (1/5) 1 0)))"
    by (rule conjI) (simp only: prod.collapse, simp add: flat_advance_futures_fst)
  note w = advance_futures_draws [of "3/2" 3 0 0 0 0 "flat_machine (1/20) (1/5) 1 0"]
  from w have d: "dre (snd (advance_futures (3/2) 3 0 0 0 0 (flat_machine (1/20) (1/5) 1 0)))
         = (\<lambda>i. dre (flat_machine (1/20) (1/5) 1 0) (i + 2))"
    by (rule conjunct1)
  from w have "\<forall>c m' i. advance_futures (3/2) 3 0 0 0 0 (flat_machine (1/20) (1/5) 1 0) = (c, m') \<and> i < count c \<longrightarrow>
        F_mem m' (phi_ptr c + i) = F_mem (flat_machine (1/20) (1/5) 1 0) (phi_ptr c + i)
          * exp (S_mem (flat_machine (1/20) (1/5) 1 0) (sigma_ptr c + i)
                   * (dre (flat_machine (1/20) (1/5) 1 0) 0 * cos (0 * (T_mem (flat_machine (1/20) (1/5) 1 0) (t_ptr c + i) - 3/2))
                      + dre (flat_machine (1/20) (1/5) 1 0) 1 * sin (0 * (T_mem (flat_machine (1/20) (1/5) 1 0) (t_ptr c + i) - 3/2)))
                 - S_mem (flat_machine (1/20) (1/5) 1 0) (sigma_ptr c + i) * S_mem (flat_machine (1/20) (1/5) 1 0) (sigma_ptr c + i) * (3/2) / 2)"
    by (rule conjunct2 [THEN conjunct2])
  from this [rule_format, OF run, unfolded flat_advance_futures_fst]
  have f: "F_mem (snd (advance_futures (3/2) 3 0 0 0 0 (flat_machine (1/20) (1/5) 1 0))) 1
       = 1/20 * exp (1/5 * 1 - 1/5 * (1/5) * (3/2) / 2)"
    by (simp add: flat_machine_def)
  from d f show ?thesis by (simp add: flat_machine_def)
qed

text \<open>
  C10. \<open>advance_futures\<close> never writes a volatility; it leaves every knot time and every rate
  stored before the returned pointers, that is those of the dropped buckets, as they were;
  and the returned view is a suffix of the original one: the returned count is at most \<open>n\<close>
  and each of the three pointers has moved forward by \<open>n\<close> minus the returned count.
\<close>

theorem advance_futures_frame:
  assumes "advance_futures u n t phi sigma alpha m = (c, m')"
  shows "S_mem m' = S_mem m
     \<and> (\<forall>a. a < t_ptr c \<longrightarrow> T_mem m' a = T_mem m a)
     \<and> (\<forall>a. a < phi_ptr c \<longrightarrow> F_mem m' a = F_mem m a)
     \<and> count c \<le> n
     \<and> t_ptr c = t + (n - count c)
     \<and> phi_ptr c = phi + (n - count c)
     \<and> sigma_ptr c = sigma + (n - count c)"
proof -
  from assms have c: "c = skip_matured u (T_mem m) n t phi sigma"
    and m': "m' = evolve u alpha (dre m 0) (dre m 1) (count c) (t_ptr c) (phi_ptr c) (sigma_ptr c)
                    (m\<lparr>dre := (\<lambda>i. dre m (i + 2))\<rparr>)"
    by (auto simp add: advance_futures_eq)
  have "S_mem m' = S_mem m" by (simp add: m' evolve_frame)
  moreover have "\<forall>a. a < t_ptr c \<longrightarrow> T_mem m' a = T_mem m a" by (simp add: m' evolve_T)
  moreover have "\<forall>a. a < phi_ptr c \<longrightarrow> F_mem m' a = F_mem m a" by (simp add: m' evolve_F)
  moreover note skip_matured_shape [of u "T_mem m" n t phi sigma, folded c]
  ultimately show ?thesis by simp
qed

theorem advance_futures_frame_witness:
  "S_mem (snd (advance_futures (3/2) 3 0 0 0 0 (flat_machine (1/20) (1/5) 1 0))) 0 = 1/5
   \<and> T_mem (snd (advance_futures (3/2) 3 0 0 0 0 (flat_machine (1/20) (1/5) 1 0))) 0 = 1
   \<and> F_mem (snd (advance_futures (3/2) 3 0 0 0 0 (flat_machine (1/20) (1/5) 1 0))) 0 = 1/20
   \<and> t_ptr (fst (advance_futures (3/2) 3 0 0 0 0 (flat_machine (1/20) (1/5) 1 0))) = 0 + (3 - 2)"
proof -
  have run: "advance_futures (3/2) 3 0 0 0 0 (flat_machine (1/20) (1/5) 1 0)
      = (fst (advance_futures (3/2) 3 0 0 0 0 (flat_machine (1/20) (1/5) 1 0)),
         snd (advance_futures (3/2) 3 0 0 0 0 (flat_machine (1/20) (1/5) 1 0)))"
    by simp
  note w = advance_futures_frame [OF run, unfolded flat_advance_futures_fst]
  from w have S: "S_mem (snd (advance_futures (3/2) 3 0 0 0 0 (flat_machine (1/20) (1/5) 1 0)))
                   = S_mem (flat_machine (1/20) (1/5) 1 0)"
    and T: "T_mem (snd (advance_futures (3/2) 3 0 0 0 0 (flat_machine (1/20) (1/5) 1 0))) 0
                   = T_mem (flat_machine (1/20) (1/5) 1 0) 0"
    and F: "F_mem (snd (advance_futures (3/2) 3 0 0 0 0 (flat_machine (1/20) (1/5) 1 0))) 0
                   = F_mem (flat_machine (1/20) (1/5) 1 0) 0"
    by simp_all
  show ?thesis
    by (simp add: S T F flat_advance_futures_fst) (simp add: flat_machine_def)
qed

text \<open>
  C3. For a forward curve of \<open>n \<ge> 1\<close> buckets whose knot times are strictly increasing, the
  implicit \<open>t[-1] = 0\<close> included, \<open>par_coupon\<close> returns \<open>(1 - D_n) / A\<close> with the discount factors
  and the annuity of the specification. For \<open>t = [1, 2]\<close> and \<open>f = [0.05, 0.05]\<close> this is
  \<open>(1 - D2) / (D1 * 1 + D2 * 1)\<close> with \<open>D1 = exp (- 0.05)\<close> and \<open>D2 = D1 * exp (- 0.05)\<close>, which
  is the instance after the theorem.
\<close>

theorem par_coupon_bootstrap:
  assumes "1 \<le> n" and "sorted_wrt (<) (0 # view (T_mem m) t n)"
  shows "par_coupon n t f m = Inr (spec_par_coupon (view (T_mem m) t n) (view (F_mem m) f n))"
proof -
  have "0 < spec_annuity (view (T_mem m) t n) (view (F_mem m) f n) n"
    using assms by (intro spec_annuity_pos) (simp_all add: length_view)
  then show ?thesis
    by (simp add: par_coupon_def par_coupon_loop_spec [of n n] spec_par_coupon_def length_view)
qed

theorem par_coupon_bootstrap_witness:
  "par_coupon 2 0 0 (flat_machine (5/100) 0 0 0)
     = Inr ((1 - exp (- (5/100)) * exp (- (5/100)))
            / (exp (- (5/100)) * 1 + exp (- (5/100)) * exp (- (5/100)) * 1))"
proof -
  have n: "(1::nat) \<le> 2" by simp
  note w = par_coupon_bootstrap [of 2 "flat_machine (5/100) 0 0 0" 0 0, OF n flat_knots_increasing, unfolded flat_view_2]
  show ?thesis
    unfolding w by (simp add: spec_par_coupon_def spec_annuity_def spec_knot_def eval_nat_numeral)
qed




text \<open>
  C9. \<open>advance\<close> is \<open>to_futures\<close> on the whole curve, then \<open>advance_futures\<close>, then
  \<open>to_forwards\<close> on the count and the pointers that \<open>advance_futures\<close> left. And for a forward
  curve without volatility (every \<open>sigma[i] = 0\<close>; the leading knot time positive, as for every
  curve), advancing to \<open>u = 0\<close> and then pricing the result with \<open>par_coupon\<close> gives exactly
  the par coupon of the original curve.
\<close>

theorem advance_sequence_and_conservation:
  "advance u n t f sigma alpha m
     = (case advance_futures u n t f sigma alpha (to_futures n t f sigma m) of
          (c, m2) \<Rightarrow> (c, to_forwards (count c) (t_ptr c) (phi_ptr c) (sigma_ptr c) m2))
   \<and> ((\<forall>i < n. S_mem m (sigma + i) = 0) \<and> (0 < n \<longrightarrow> 0 < T_mem m t) \<longrightarrow>
        (case advance 0 n t f sigma alpha m of
           (c, m') \<Rightarrow> par_coupon (count c) (t_ptr c) (phi_ptr c) m' = par_coupon n t f m))"
proof (intro conjI impI)
  show "advance u n t f sigma alpha m
     = (case advance_futures u n t f sigma alpha (to_futures n t f sigma m) of
          (c, m2) \<Rightarrow> (c, to_forwards (count c) (t_ptr c) (phi_ptr c) (sigma_ptr c) m2))"
    by (simp add: advance_def Let_def)
next
  assume "(\<forall>i < n. S_mem m (sigma + i) = 0) \<and> (0 < n \<longrightarrow> 0 < T_mem m t)"
  then have "advance 0 n t f sigma alpha m
    = (\<lparr>count = n, t_ptr = t, phi_ptr = f, sigma_ptr = sigma\<rparr>, m\<lparr>dre := (\<lambda>i. dre m (i + 2))\<rparr>)"
    by (intro advance_zero_sigma_zero_u) simp_all
  then show "case advance 0 n t f sigma alpha m of
           (c, m') \<Rightarrow> par_coupon (count c) (t_ptr c) (phi_ptr c) m' = par_coupon n t f m"
    by (simp add: par_coupon_dre)
qed

theorem advance_sequence_and_conservation_witness:
  "par_coupon (count (fst (advance 0 2 0 0 0 0 (flat_machine (1/20) 0 1 0))))
              (t_ptr (fst (advance 0 2 0 0 0 0 (flat_machine (1/20) 0 1 0))))
              (phi_ptr (fst (advance 0 2 0 0 0 0 (flat_machine (1/20) 0 1 0))))
              (snd (advance 0 2 0 0 0 0 (flat_machine (1/20) 0 1 0)))
     = par_coupon 2 0 0 (flat_machine (1/20) 0 1 0)"
proof -
  have h: "(\<forall>i < 2. S_mem (flat_machine (1/20) 0 1 0) (0 + i) = 0)
      \<and> (0 < (2::nat) \<longrightarrow> 0 < T_mem (flat_machine (1/20) 0 1 0) 0)"
    by (simp add: flat_machine_def)
  from advance_sequence_and_conservation [of 0 2 0 0 0 0 "flat_machine (1/20) 0 1 0", THEN conjunct2, rule_format, OF h]
  show ?thesis by (simp add: case_prod_unfold)
qed

text \<open>
  C6, at the curve of one bucket with knot time 1, rate 1 and volatility 1, with \<open>u = 0\<close>,
  \<open>alpha = 0\<close> and the draws \<open>B0 = 1\<close>, \<open>B1 = 0\<close>: \<open>advance_futures\<close> drops no bucket and leaves
  the knot times as they are, and it replaces the rate 1 by \<open>exp 1\<close>. The factor of the
  second loop is \<open>exp (sigma[i] * Bu)\<close> for \<open>u = 0\<close>: the draws enter it unscaled.
\<close>

theorem advance_futures_zero_u_not_identity:
  "fst (advance_futures 0 1 0 0 0 0 (flat_machine 1 1 1 0))
      = \<lparr>count = 1, t_ptr = 0, phi_ptr = 0, sigma_ptr = 0\<rparr>
   \<and> T_mem (snd (advance_futures 0 1 0 0 0 0 (flat_machine 1 1 1 0))) = T_mem (flat_machine 1 1 1 0)
   \<and> F_mem (flat_machine 1 1 1 0) 0 = 1
   \<and> F_mem (snd (advance_futures 0 1 0 0 0 0 (flat_machine 1 1 1 0))) 0 = exp 1
   \<and> F_mem (snd (advance_futures 0 1 0 0 0 0 (flat_machine 1 1 1 0))) 0 \<noteq> F_mem (flat_machine 1 1 1 0) 0"
  unfolding unit_advance_futures by (simp add: flat_machine_def)

text \<open>
  C1, at the curve of one bucket with knot time 1, rate 1 and volatility 1, with \<open>u = 0\<close>, for
  any \<open>alpha\<close> and any draws \<open>B0\<close>, \<open>B1\<close>: \<open>advance_futures\<close> replaces the rate 1 by
  \<open>exp (B0 * cos alpha + B1 * sin alpha)\<close>. The mean of the new rate over the two pairs of
  draws \<open>(B0, B1)\<close> and \<open>(- B0, - B1)\<close> is at least 1, and it is 1 only where
  \<open>B0 * cos alpha + B1 * sin alpha = 0\<close>. The standard normal law gives both pairs the same
  weight, so the expected new rate lies above the old rate: the step is not a martingale
  update there.
\<close>

theorem advance_futures_antithetic_mean:
  "F_mem (flat_machine 1 1 b0 b1) 0 = 1
   \<and> F_mem (snd (advance_futures 0 1 0 0 0 alpha (flat_machine 1 1 b0 b1))) 0
       = exp (b0 * cos alpha + b1 * sin alpha)
   \<and> 1 \<le> (F_mem (snd (advance_futures 0 1 0 0 0 alpha (flat_machine 1 1 b0 b1))) 0
           + F_mem (snd (advance_futures 0 1 0 0 0 alpha (flat_machine 1 1 (- b0) (- b1)))) 0) / 2
   \<and> (((F_mem (snd (advance_futures 0 1 0 0 0 alpha (flat_machine 1 1 b0 b1))) 0
           + F_mem (snd (advance_futures 0 1 0 0 0 alpha (flat_machine 1 1 (- b0) (- b1)))) 0) / 2 = 1)
        = (b0 * cos alpha + b1 * sin alpha = 0))"
proof -
  have "(exp (b0 * cos alpha + b1 * sin alpha) + exp (- b0 * cos alpha + - b1 * sin alpha)) / 2
      = cosh (b0 * cos alpha + b1 * sin alpha)"
    by (simp add: cosh_field_def)
  then show ?thesis
    using cosh_real_ge_1 [of "b0 * cos alpha + b1 * sin alpha"]
      cosh_real_one_iff [of "b0 * cos alpha + b1 * sin alpha"]
    unfolding unit_advance_futures by (simp add: flat_machine_def)
qed

end
